theory Spec2Isabelle
  imports Complex_Main "HOL-Library.Multiset"
begin

section \<open>Monthly tables\<close>

text \<open>
  The module \<^verbatim>\<open>Yanase/modelo1.py\<close> works on pandas tables whose rows are keyed by a
  \<^verbatim>\<open>PeriodIndex\<close>. A period is its pandas ordinal; for the monthly frequency the
  ordinal counts the months since 1970-01, so \<^verbatim>\<open>p + 1\<close> is the next month and the
  calendar month and year are read off by division by 12.

  Cell values are floating-point numbers. The module never computes with them: all
  arithmetic on cells happens inside \<^verbatim>\<open>rolling(12).corr\<close>, which is a parameter of the
  embedding. A cell is therefore \<open>'v option\<close> for an arbitrary linearly ordered type
  \<open>'v\<close> of numbers, \<open>None\<close> being NaN (a missing value). Column labels are taken to be
  unique, as pandas' rolling correlation of two tables requires.
\<close>

type_synonym period = int

definition month_of :: "period \<Rightarrow> int" where
  "month_of p = p mod 12 + 1"

definition year_of :: "period \<Rightarrow> int" where
  "year_of p = 1970 + p div 12"

text \<open>
  The frequency of a period index (\<^verbatim>\<open>df.index.freq\<close>): \<open>MonthEnd\<close> is the offset that pandas
  gives a monthly index (\<^verbatim>\<open>freq='M'\<close>), the others stand for the non-monthly ones. The
  module reads calendar months only from tables and periods of monthly frequency.
\<close>

datatype freq = YearEnd | QuarterEnd | MonthEnd | Week | Day

datatype error =
    FormatError       \<comment> \<open>\<^verbatim>\<open>Exception("Favor informar dataframe periodizado mensalmente.")\<close>\<close>
  | NotFittedError    \<comment> \<open>\<^verbatim>\<open>Exception("Realizar o fit do modelo antes")\<close>\<close>
  | IndexError
  | KeyError
  | IncompatibleFrequency
  | AttributeError

text \<open>
  A table: the frequency and the name of its index, its column labels, and its rows in
  order, each the row's key with one cell per column.
\<close>

type_synonym 'v row = "period \<times> 'v option list"

record ('c, 'v) dataframe =
  idx_freq :: freq
  idx_name :: "string option"
  columns :: "'c list"
  rows :: "'v row list"

definition index :: "('c, 'v) dataframe \<Rightarrow> period list" where
  "index df = map fst (rows df)"

subsection \<open>The pandas operations the module calls\<close>

text \<open>\<^verbatim>\<open>xs[i]\<close> for a Python integer: a negative position counts from the end, a position
  outside the list raises.\<close>

definition py_index :: "'a list \<Rightarrow> int \<Rightarrow> error + 'a" where
  "py_index xs i =
     (if 0 \<le> i \<and> i < int (length xs) then Inr (xs ! nat i)
      else if i < 0 \<and> - i \<le> int (length xs) then Inr (xs ! nat (int (length xs) + i))
      else Inl IndexError)"

text \<open>\<^verbatim>\<open>.iloc[-n:]\<close>: the last \<open>n\<close> rows, all of them when there are fewer.\<close>

definition iloc_last :: "nat \<Rightarrow> 'a list \<Rightarrow> 'a list" where
  "iloc_last n xs = drop (length xs - n) xs"

text \<open>\<^verbatim>\<open>.iloc[:n]\<close>: the first \<open>n\<close> rows; for a negative \<open>n\<close> all but the last \<open>- n\<close>.\<close>

definition iloc_upto :: "int \<Rightarrow> 'a list \<Rightarrow> 'a list" where
  "iloc_upto n xs = (if 0 \<le> n then take (nat n) xs else take (length xs - nat (- n)) xs)"

text \<open>\<^verbatim>\<open>pd.period_range(start, periods=n, freq='M')\<close> for a monthly \<open>start\<close>.\<close>

definition period_range :: "period \<Rightarrow> nat \<Rightarrow> period list" where
  "period_range start n = map (\<lambda>i. start + int i) [0..<n]"

text \<open>
  The left bound of the label slice \<^verbatim>\<open>.loc[label:]\<close> (pandas'
  \<^verbatim>\<open>Index.get_slice_bound\<close>). A label that occurs in the index gives the position of its
  first occurrence, provided its occurrences are adjacent; a label that does not occur
  is located by binary search when the index is monotonic; every other case is a
  \<^verbatim>\<open>KeyError\<close>.
\<close>

definition slice_bound_left :: "period list \<Rightarrow> period \<Rightarrow> error + nat" where
  "slice_bound_left idx label =
     (if label \<in> set idx then
        (let i = length (takeWhile (\<lambda>k. k \<noteq> label) idx);
             run = takeWhile (\<lambda>k. k = label) (drop i idx)
         in if label \<in> set (drop (i + length run) idx) then Inl KeyError else Inr i)
      else if sorted idx then Inr (length (takeWhile (\<lambda>k. k < label) idx))
      else if sorted (rev idx) then Inr (length (takeWhile (\<lambda>k. label < k) idx))
      else Inl KeyError)"

text \<open>\<^verbatim>\<open>df.loc[label:]\<close> for a monthly label: on an index of another frequency pandas
  refuses the label with \<^verbatim>\<open>IncompatibleFrequency\<close>.\<close>

definition loc_from :: "('c, 'v) dataframe \<Rightarrow> period \<Rightarrow> error + 'v row list" where
  "loc_from df label =
     (if idx_freq df \<noteq> MonthEnd then Inl IncompatibleFrequency
      else case slice_bound_left (index df) label of
             Inl e \<Rightarrow> Inl e
           | Inr i \<Rightarrow> Inr (drop i (rows df)))"

text \<open>The position of a column label (\<^verbatim>\<open>df[label]\<close> raises \<^verbatim>\<open>KeyError\<close> without one).\<close>

fun col_pos :: "'c \<Rightarrow> 'c list \<Rightarrow> nat option" where
  "col_pos c [] = None"
| "col_pos c (x # xs) = (if x = c then Some 0 else map_option Suc (col_pos c xs))"

definition cell :: "'v option list \<Rightarrow> nat \<Rightarrow> 'v option" where
  "cell r j = (if j < length r then r ! j else None)"

text \<open>The series of one column: the row keys with the column's cells.\<close>

definition series :: "nat \<Rightarrow> 'v row list \<Rightarrow> (period \<times> 'v option) list" where
  "series j rs = map (\<lambda>(k, r). (k, cell r j)) rs"

text \<open>
  \<^verbatim>\<open>Series.sort_values(ascending=False)\<close>, as pandas' \<^verbatim>\<open>nargsort\<close> does it: the missing
  values are set aside and appended last in their original order; the others are
  reversed, sorted in ascending order and reversed again. The sort here is stable, so
  equal values keep their original order; pandas' default sorting algorithm does not
  promise an order among equal values.
\<close>

definition sort_values_desc :: "(period \<times> ('v::linorder) option) list \<Rightarrow> (period \<times> 'v option) list" where
  "sort_values_desc s =
     (let non_nans = [(k, x). (k, Some x) \<leftarrow> s];
          nans = filter (\<lambda>(k, v). v = None) s
      in map (\<lambda>(k, x). (k, Some x)) (rev (sort_key snd (rev non_nans))) @ nans)"

text \<open>
  \<^verbatim>\<open>Period.strftime('%Y-%m')\<close>: the year in decimal, padded with zeros to four digits, a
  dash, the month in two digits.
\<close>

fun decimal :: "nat \<Rightarrow> string" where
  "decimal n = (if n < 10 then [''0123456789'' ! n] else decimal (n div 10) @ [''0123456789'' ! (n mod 10)])"

definition strftime_Y_m :: "period \<Rightarrow> string" where
  "strftime_Y_m p =
     (if year_of p < 0 then ''-'' else '''') @
     replicate (4 - length (decimal (nat \<bar>year_of p\<bar>))) (CHR ''0'') @
     decimal (nat \<bar>year_of p\<bar>) @ ''-'' @
     (if month_of p < 10 then ''0'' else '''') @ decimal (nat (month_of p))"

section \<open>The correlation of the last 12 months with earlier years\<close>

text \<open>
  The windowed correlation is pandas code, not the module's: \<open>rc i xs ys\<close> stands for the
  entry at row position \<open>i\<close> of \<^verbatim>\<open>xs.rolling(12).corr(ys)\<close> for two column series
  \<open>xs\<close> and \<open>ys\<close> on the same index.
\<close>

type_synonym 'v rolling_corr = "nat \<Rightarrow> 'v option list \<Rightarrow> 'v option list \<Rightarrow> 'v option"

definition column_values :: "nat \<Rightarrow> 'v row list \<Rightarrow> 'v option list" where
  "column_values j rs = map (\<lambda>(k, r). cell r j) rs"

definition rolling12_corr ::
  "'v rolling_corr \<Rightarrow> nat \<Rightarrow> 'v row list \<Rightarrow> 'v row list \<Rightarrow> 'v row list" where
  "rolling12_corr rc ncols df_ref df_other =
     map (\<lambda>i. (fst (df_ref ! i),
                map (\<lambda>j. rc i (column_values j df_ref) (column_values j df_other)) [0..<ncols]))
         [0..<length df_ref]"

text \<open>
  The loop of lines 41-42: for each calendar month, every row of \<open>df_other\<close> in that
  month is overwritten with the first row of \<open>df_trecho\<close> in that month. Python evaluates
  the right-hand side first, so a month without a row in \<open>df_trecho\<close> raises
  \<^verbatim>\<open>IndexError\<close> (\<^verbatim>\<open>.iloc[0]\<close> of an empty selection).
\<close>

fun spread_months :: "int list \<Rightarrow> 'v row list \<Rightarrow> 'v row list \<Rightarrow> error + 'v row list" where
  "spread_months [] df_trecho df_other = Inr df_other"
| "spread_months (m # ms) df_trecho df_other =
     (case filter (\<lambda>(k, r). month_of k = m) df_trecho of
        [] \<Rightarrow> Inl IndexError
      | (k, r) # _ \<Rightarrow>
          spread_months ms df_trecho
            (map (\<lambda>(k', r'). if month_of k' = m then (k', r) else (k', r')) df_other))"

text \<open>
  What the loop does to one row when it runs to its end: a row whose calendar month is
  among \<open>ms\<close> receives the cells of the first row of \<open>df_trecho\<close> in that month.
\<close>

definition spread_row :: "int list \<Rightarrow> 'v row list \<Rightarrow> 'v row \<Rightarrow> 'v row" where
  "spread_row ms tr = (\<lambda>(k, r).
     if month_of k \<in> set ms
     then (k, snd (hd (filter (\<lambda>(k', r'). month_of k' = month_of k) tr)))
     else (k, r))"

definition calc_corr_last12 ::
  "'v rolling_corr \<Rightarrow> ('c, 'v) dataframe \<Rightarrow> error + ('c, 'v) dataframe" where
  "calc_corr_last12 rc df_hist =
     (if idx_freq df_hist \<noteq> MonthEnd then Inl FormatError
      else
        let df_ref = rows df_hist;
            df_trecho = iloc_last 12 df_ref
        in case spread_months [1..12] df_trecho df_ref of
             Inl e \<Rightarrow> Inl e
           | Inr df_other \<Rightarrow>
               (let df_corr = rolling12_corr rc (length (columns df_hist)) df_ref df_other
                in case py_index (map fst df_trecho) (- 1) of
                     Inl e \<Rightarrow> Inl e
                   | Inr final \<Rightarrow>
                       Inr (df_hist\<lparr>idx_name := Some ''mes_final'',
                                    rows := filter (\<lambda>(k, r). month_of k = month_of final) df_corr\<rparr>)))"

section \<open>The model \<^verbatim>\<open>SimpleCorrelation12\<close>\<close>

text \<open>
  The object's attributes. Those that \<^verbatim>\<open>__init__\<close> sets to \<^verbatim>\<open>None\<close> are options;
  the attributes whose Python names end in an underscore (\<^verbatim>\<open>_period_\<close>, \<^verbatim>\<open>correlacao_\<close>,
  \<^verbatim>\<open>correlacao_outros_\<close>, \<^verbatim>\<open>mes_final_periodo_\<close>) end in \<open>_fit\<close> here.
  \<open>correlacao_outros_fit\<close> holds the rows of the correlation table under the selected key
  (one row when the key is unique).
\<close>

record ('c, 'v) model =
  coluna :: 'c
  posicao :: int
  df_base :: "('c, 'v) dataframe option"
  df_correlacao :: "('c, 'v) dataframe option"
  period_fit :: "period option"
  correlacao_fit :: "'v option option"
  correlacao_outros_fit :: "'v option list list option"
  mes_final_periodo_fit :: "string option"

text \<open>\<^verbatim>\<open>__init__(coluna, posicao=1)\<close>: an omitted \<open>posicao\<close> is 1.\<close>

definition init :: "'c \<Rightarrow> int option \<Rightarrow> ('c, 'v) model" where
  "init c p =
     \<lparr>coluna = c, posicao = (case p of None \<Rightarrow> 1 | Some i \<Rightarrow> i),
      df_base = None, df_correlacao = None, period_fit = None, correlacao_fit = None,
      correlacao_outros_fit = None, mes_final_periodo_fit = None\<rparr>"

text \<open>
  \<^verbatim>\<open>fit\<close> assigns its attributes one after the other, so an exception leaves the
  assignments made before it in place. The result is the exception raised, if any,
  together with the object as the call leaves it.
\<close>

definition fit ::
  "('v::linorder) rolling_corr \<Rightarrow> ('c, 'v) model \<Rightarrow> ('c, 'v) dataframe \<Rightarrow>
   error option \<times> ('c, 'v) model" where
  "fit rc self df =
     (let s1 = self\<lparr>df_base := Some df\<rparr> in
      case calc_corr_last12 rc df of
        Inl e \<Rightarrow> (Some e, s1)
      | Inr corr \<Rightarrow>
          (let s2 = s1\<lparr>df_correlacao := Some corr\<rparr> in
           case col_pos (coluna self) (columns corr) of
             None \<Rightarrow> (Some KeyError, s2)
           | Some j \<Rightarrow>
               (let top_corr = sort_values_desc (series j (rows corr)) in
                case py_index top_corr (posicao self) of
                  Inl e \<Rightarrow> (Some e, s2)
                | Inr (k, v) \<Rightarrow>
                    (None,
                     s2\<lparr>period_fit := Some k,
                        correlacao_fit := Some v,
                        correlacao_outros_fit :=
                          Some (map snd (filter (\<lambda>(k', r). k' = k) (rows corr))),
                        mes_final_periodo_fit := Some (strftime_Y_m k)\<rparr>))))"

text \<open>
  \<^verbatim>\<open>predict\<close> reads the object and does not change it. \<^verbatim>\<open>self._period_ + 1\<close> raises
  \<^verbatim>\<open>TypeError\<close> exactly when \<^verbatim>\<open>_period_\<close> is still \<^verbatim>\<open>None\<close>, which the method turns
  into its own exception. \<^verbatim>\<open>num_meses if num_meses else ...\<close> takes the default for
  \<^verbatim>\<open>None\<close> and for 0.
\<close>

definition predict :: "('c, 'v) model \<Rightarrow> int option \<Rightarrow> error + ('c, 'v) dataframe" where
  "predict self num_meses =
     (case period_fit self of
        None \<Rightarrow> Inl NotFittedError
      | Some p \<Rightarrow>
          (let mes_escolhido_ini = p + 1 in
           case df_base self of
             None \<Rightarrow> Inl AttributeError
           | Some base \<Rightarrow>
               (case py_index (index base) (- 1) of
                  Inl e \<Rightarrow> Inl e
                | Inr final \<Rightarrow>
                    (let next_month = final + 1;
                         n = (case num_meses of
                                None \<Rightarrow> 13 - month_of mes_escolhido_ini
                              | Some k \<Rightarrow> if k = 0 then 13 - month_of mes_escolhido_ini else k)
                     in case loc_from base mes_escolhido_ini of
                          Inl e \<Rightarrow> Inl e
                        | Inr from_ini \<Rightarrow>
                            (let df_escolhido = iloc_upto n from_ini
                             in Inr \<lparr>idx_freq = MonthEnd, idx_name = None,
                                     columns = columns base,
                                     rows = zip (period_range next_month (length df_escolhido))
                                                (map snd df_escolhido)\<rparr>)))))"

text \<open>The object after a sequence of \<^verbatim>\<open>fit\<close> calls whose exceptions the caller catches.\<close>

fun fit_calls ::
  "('v::linorder) rolling_corr \<Rightarrow> ('c, 'v) model \<Rightarrow> ('c, 'v) dataframe list \<Rightarrow> ('c, 'v) model" where
  "fit_calls rc self [] = self"
| "fit_calls rc self (df # dfs) = fit_calls rc (snd (fit rc self df)) dfs"

text \<open>
  The table \<^verbatim>\<open>predict\<close> builds from the rows \<open>from_ini\<close> of the stored history that start at
  the chosen month: the first \<open>h\<close> of them, re-keyed with the months that follow the
  history's last month.
\<close>

definition reindexed :: "('c, 'v) dataframe \<Rightarrow> int \<Rightarrow> 'v row list \<Rightarrow> ('c, 'v) dataframe" where
  "reindexed df h from_ini =
     \<lparr>idx_freq = MonthEnd, idx_name = None, columns = columns df,
      rows = zip (period_range (last (index df) + 1) (length (iloc_upto h from_ini)))
                 (map snd (iloc_upto h from_ini))\<rparr>"

text \<open>A contiguous run of months: each key is the month after the one before it.\<close>

fun contiguous :: "period list \<Rightarrow> bool" where
  "contiguous (a # b # ks) = (b = a + 1 \<and> contiguous (b # ks))"
| "contiguous ks = True"

section \<open>The windowed correlation of the spec\<close>

text \<open>
  Modelled from the spec: the window that \<^verbatim>\<open>rolling(12)\<close> reads at row position \<open>i\<close>, which
  is pandas code and not part of the module. Section 4.1: a windowed correlation at row
  \<open>i\<close> uses the 12 rows ending at \<open>i\<close>; it is missing when fewer than 12 rows end there or
  when one of the 12 samples is missing.
\<close>

definition window_cells :: "nat \<Rightarrow> 'v option list \<Rightarrow> 'v list option" where
  "window_cells i xs =
     (let w = take 12 (drop (i - 11) xs)
      in if i < 11 \<or> None \<in> set w then None else Some (map the w))"

text \<open>
  Modelled from the spec: the Pearson correlation of two windows (section 3: the cell
  value is the Pearson correlation, windowed, 12-sample), in exact arithmetic over the
  reals. \<open>codeviation xs ys\<close> is the sum of the products of the deviations from the
  means, so \<open>codeviation xs xs\<close> is the variance of \<open>xs\<close> times \<open>n - 1\<close>; the correlation
  is missing when either series has zero variance over the window (section 4.1).
\<close>

definition deviations :: "real list \<Rightarrow> real list" where
  "deviations xs = map (\<lambda>x. x - sum_list xs / real (length xs)) xs"

definition codeviation :: "real list \<Rightarrow> real list \<Rightarrow> real" where
  "codeviation xs ys = sum_list (map2 (*) (deviations xs) (deviations ys))"

definition pearson :: "real list \<Rightarrow> real list \<Rightarrow> real option" where
  "pearson xs ys =
     (if codeviation xs xs = 0 \<or> codeviation ys ys = 0 then None
      else Some (codeviation xs ys / sqrt (codeviation xs xs * codeviation ys ys)))"

text \<open>
  Modelled from the spec: \<^verbatim>\<open>rolling(12).corr\<close> itself, the Pearson correlation of the two
  windows of 12 rows that end at row position \<open>i\<close>.
\<close>

definition pearson12 :: "real rolling_corr" where
  "pearson12 i xs ys =
     (case (window_cells i xs, window_cells i ys) of
        (Some wx, Some wy) \<Rightarrow> pearson wx wy
      | _ \<Rightarrow> None)"

section \<open>Example tables\<close>

text \<open>
  For the examples the correlation of two windows is replaced by its signed square
  \<open>sgn r * r\<^sup>2\<close>, which is a rational number, orders windows exactly as \<open>r\<close> does, is
  \<open>1\<close> or \<open>-1\<close> exactly when \<open>r\<close> is, and is undefined exactly when \<open>r\<close> is: for a window
  of fewer than 12 rows, with a missing cell, or with zero variance on either side.
\<close>

definition signed_r2 :: "rat list \<Rightarrow> rat list \<Rightarrow> rat option" where
  "signed_r2 xs ys =
     (let n = rat_of_nat (length xs);
          cov = n * sum_list (map2 (*) xs ys) - sum_list xs * sum_list ys;
          vx = n * sum_list (map2 (*) xs xs) - sum_list xs * sum_list xs;
          vy = n * sum_list (map2 (*) ys ys) - sum_list ys * sum_list ys
      in if vx = 0 \<or> vy = 0 then None else Some (sgn cov * (cov * cov) / (vx * vy)))"

definition example_corr :: "rat rolling_corr" where
  "example_corr i xs ys =
     (case (window_cells i xs, window_cells i ys) of
        (Some wx, Some wy) \<Rightarrow> signed_r2 wx wy
      | _ \<Rightarrow> None)"

text \<open>
  Three years of two stations (columns 6 and 74), April 2000 to March 2003. Station 6 is
  constant in the first year, and its second year is its third with two months swapped.
\<close>

definition table_from :: "period \<Rightarrow> 'v list \<Rightarrow> 'v list \<Rightarrow> 'v row list" where
  "table_from start a b =
     map (\<lambda>i. (start + int i, [Some (a ! i), Some (b ! i)])) [0..<length a]"

definition hist36 :: "(nat, rat) dataframe" where
  "hist36 =
     \<lparr>idx_freq = MonthEnd, idx_name = None, columns = [6, 74],
      rows = table_from 363
        [5, 5, 5, 5, 5, 5, 5, 5, 5, 5, 5, 5,
         2, 1, 3, 4, 5, 6, 7, 8, 9, 10, 11, 12,
         1, 2, 3, 4, 5, 6, 7, 8, 9, 10, 11, 12]
        [30, 31, 32, 33, 34, 35, 36, 37, 38, 39, 40, 41,
         12, 11, 10, 9, 8, 7, 6, 5, 4, 3, 2, 1,
         3, 1, 4, 1, 5, 9, 2, 6, 5, 3, 5, 8]\<rparr>"

text \<open>One year only: the correlation table has the single row of the last month.\<close>

definition hist12 :: "(nat, rat) dataframe" where
  "hist12 =
     \<lparr>idx_freq = MonthEnd, idx_name = None, columns = [6, 74],
      rows = table_from 363
        [1, 2, 3, 4, 5, 6, 7, 8, 9, 10, 11, 12]
        [3, 1, 4, 1, 5, 9, 2, 6, 5, 3, 5, 8]\<rparr>"

text \<open>Three months of a monthly table, and three days of a daily one.\<close>

definition short3 :: "(nat, rat) dataframe" where
  "short3 =
     \<lparr>idx_freq = MonthEnd, idx_name = None, columns = [6, 74],
      rows = table_from 363 [1, 2, 3] [3, 1, 4]\<rparr>"

definition daily3 :: "(nat, rat) dataframe" where
  "daily3 =
     \<lparr>idx_freq = Day, idx_name = None, columns = [6, 74],
      rows = table_from 11048 [1, 2, 3] [3, 1, 4]\<rparr>"

text \<open>
  The correlation table of \<open>hist36\<close> under \<open>example_corr\<close>, and the model that
  \<^verbatim>\<open>SimpleCorrelation12(6).fit(hist36)\<close> leaves: the best period ends in March 2003 (the
  last 12 months themselves), the second best in March 2002, and the period that ends
  in March 2001 has no correlation for station 6.
\<close>

definition corr36 :: "(nat, rat) dataframe" where
  "corr36 =
     \<lparr>idx_freq = MonthEnd, idx_name = Some ''mes_final'', columns = [6, 74],
      rows = [(374, [None, Some (1875 / 7579)]),
              (386, [Some (20164 / 20449), Some (- (1875 / 7579))]),
              (398, [Some 1, Some 1])]\<rparr>"

definition fitted36 :: "(nat, rat) model" where
  "fitted36 =
     \<lparr>coluna = 6, posicao = 1, df_base = Some hist36, df_correlacao = Some corr36,
      period_fit = Some 386, correlacao_fit = Some (Some (20164 / 20449)),
      correlacao_outros_fit = Some [[Some (20164 / 20449), Some (- (1875 / 7579))]],
      mes_final_periodo_fit = Some ''2002-03''\<rparr>"

text \<open>
  The model that \<^verbatim>\<open>SimpleCorrelation12(74).fit(hist36)\<close> leaves: for station 74 the
  second best period ends in March 2001.
\<close>

definition fitted36_74 :: "(nat, rat) model" where
  "fitted36_74 =
     \<lparr>coluna = 74, posicao = 1, df_base = Some hist36, df_correlacao = Some corr36,
      period_fit = Some 374, correlacao_fit = Some (Some (1875 / 7579)),
      correlacao_outros_fit = Some [[None, Some (1875 / 7579)]],
      mes_final_periodo_fit = Some ''2001-03''\<rparr>"

text \<open>The model that \<^verbatim>\<open>SimpleCorrelation12(6, 0).fit(hist12)\<close> leaves.\<close>

definition fitted12 :: "(nat, rat) model" where
  "fitted12 =
     \<lparr>coluna = 6, posicao = 0, df_base = Some hist12,
      df_correlacao = Some \<lparr>idx_freq = MonthEnd, idx_name = Some ''mes_final'',
                             columns = [6, 74], rows = [(374, [Some 1, Some 1])]\<rparr>,
      period_fit = Some 374, correlacao_fit = Some (Some 1),
      correlacao_outros_fit = Some [[Some 1, Some 1]],
      mes_final_periodo_fit = Some ''2001-03''\<rparr>"

text \<open>Fourteen months of two stations with real cells, April 2000 to May 2001.\<close>

definition hist14 :: "(nat, real) dataframe" where
  "hist14 =
     \<lparr>idx_freq = MonthEnd, idx_name = None, columns = [6, 74],
      rows = table_from 363
        [7, 9, 1, 2, 3, 4, 5, 6, 7, 8, 9, 10, 11, 12]
        [2, 7, 3, 1, 4, 1, 5, 9, 2, 6, 5, 3, 5, 8]\<rparr>"

section \<open>Properties of the pandas operations\<close>

lemma py_index_last: "py_index xs (- 1) = (if xs = [] then Inl IndexError else Inr (last xs))"
  by (cases xs rule: rev_cases) (auto simp: py_index_def nth_append)

lemma py_index_nonneg:
  "0 \<le> i \<Longrightarrow> py_index xs i = (if nat i < length xs then Inr (xs ! nat i) else Inl IndexError)"
  by (auto simp: py_index_def)

lemma py_index_error: "py_index xs i = Inl e \<Longrightarrow> e = IndexError"
  by (auto simp: py_index_def split: if_splits)

lemma py_index_mem: "py_index xs i = Inr x \<Longrightarrow> x \<in> set xs"
  by (auto simp: py_index_def split: if_splits)

lemma iloc_last_Nil: "0 < n \<Longrightarrow> iloc_last n xs = [] \<longleftrightarrow> xs = []"
  by (cases xs) (auto simp: iloc_last_def)

lemma last_iloc_last: "xs \<noteq> [] \<Longrightarrow> 0 < n \<Longrightarrow> last (iloc_last n xs) = last xs"
  by (simp add: iloc_last_def)

lemma iloc_upto_length: "0 < n \<Longrightarrow> int (length (iloc_upto n xs)) \<le> n"
  by (simp add: iloc_upto_def)

lemma iloc_upto_Nil: "0 < n \<Longrightarrow> iloc_upto n xs = [] \<longleftrightarrow> xs = []"
  by (cases xs) (auto simp: iloc_upto_def)

lemma col_pos_Some:
  "col_pos c cols = Some j \<Longrightarrow> j < length cols \<and> cols ! j = c \<and> (\<forall>i<j. cols ! i \<noteq> c)"
proof (induction cols arbitrary: j)
  case Nil
  then show ?case by simp
next
  case (Cons x cols)
  show ?case
  proof (cases "x = c")
    case True
    with Cons.prems show ?thesis by simp
  next
    case False
    with Cons.prems obtain j' where j': "col_pos c cols = Some j'" "j = Suc j'" by auto
    from Cons.IH [OF j'(1)] False j'(2) show ?thesis
      by (auto simp: nth_Cons split: nat.splits)
  qed
qed

lemma column_values_iloc_last:
  "iloc_last n (column_values j rs) = column_values j (iloc_last n rs)"
  by (simp add: iloc_last_def column_values_def drop_map)

lemma cell_map_upt: "j < n \<Longrightarrow> cell (map f [0..<n]) j = f j"
  by (simp add: cell_def)

lemma filter_keys: "map fst (filter (\<lambda>(k, r). P k) rs) = filter P (map fst rs)"
  by (induction rs) auto

lemma contiguous_tl: "contiguous (a # ks) \<Longrightarrow> contiguous ks"
  by (cases ks) auto

lemma contiguous_nth: "contiguous ks \<Longrightarrow> i < length ks \<Longrightarrow> ks ! i = hd ks + int i"
proof (induction ks arbitrary: i)
  case Nil
  then show ?case by simp
next
  case (Cons a ks)
  show ?case
  proof (cases i)
    case 0
    then show ?thesis by simp
  next
    case (Suc j)
    with Cons.prems obtain b ks' where ks: "ks = b # ks'" by (cases ks) auto
    with Cons.prems have "b = a + 1" "contiguous ks" by auto
    with Cons.IH [of j] Cons.prems Suc ks show ?thesis by simp
  qed
qed

lemma contiguous_drop: "contiguous ks \<Longrightarrow> contiguous (drop n ks)"
proof (induction n arbitrary: ks)
  case 0
  then show ?case by simp
next
  case (Suc n)
  then show ?case by (cases ks) (auto dest: contiguous_tl)
qed

lemma month_of_range: "1 \<le> month_of p \<and> month_of p \<le> 12"
  by (simp add: month_of_def)

lemma twelve_months_cover:
  assumes c: "contiguous ks" and len: "length ks = 12" and m: "1 \<le> m" "m \<le> 12"
  shows "\<exists>k\<in>set ks. month_of k = m"
proof -
  define i where "i = nat ((m - 1 - hd ks) mod 12)"
  have i: "i < length ks" using len by (simp add: i_def nat_less_iff)
  have "ks ! i = hd ks + (m - 1 - hd ks) mod 12"
    using contiguous_nth [OF c i] by (simp add: i_def)
  then have "month_of (ks ! i) = (hd ks + (m - 1 - hd ks) mod 12) mod 12 + 1"
    by (simp add: month_of_def)
  also have "(hd ks + (m - 1 - hd ks) mod 12) mod 12 = (m - 1) mod 12"
    by (simp add: mod_add_right_eq)
  also have "(m - 1) mod 12 = m - 1" using m by simp
  finally have "month_of (ks ! i) = m" by simp
  with i show ?thesis by (metis nth_mem)
qed

lemma non_nans_filter:
  "map (\<lambda>(k, x). (k, Some x)) [(k, x). (k, Some x) \<leftarrow> s] = filter (\<lambda>(k, v). v \<noteq> None) s"
  by (induction s) (auto split: option.splits)

lemma non_nans_length:
  "length [(k, x). (k, Some x) \<leftarrow> s] = length (filter (\<lambda>(k, v). v \<noteq> None) s)"
  by (metis non_nans_filter length_map)

lemma sort_values_desc_mset: "mset (sort_values_desc s) = mset s"
proof -
  let ?nn = "[(k, x). (k, Some x) \<leftarrow> s]"
  have "mset (map (\<lambda>(k, x). (k, Some x)) (rev (sort_key snd (rev ?nn)))) =
        mset (map (\<lambda>(k, x). (k, Some x)) ?nn)"
    by (simp add: mset_map)
  also have "\<dots> = mset (filter (\<lambda>(k, v). v \<noteq> None) s)"
    by (simp only: non_nans_filter)
  finally have "mset (sort_values_desc s) =
      mset (filter (\<lambda>(k, v). v \<noteq> None) s) + mset (filter (\<lambda>(k, v). v = None) s)"
    by (simp add: sort_values_desc_def Let_def)
  also have "\<dots> = mset s"
    by (induction s) auto
  finally show ?thesis .
qed

lemma sort_values_desc_length: "length (sort_values_desc s) = length s"
  by (metis sort_values_desc_mset size_mset)

lemma sort_values_desc_set: "set (sort_values_desc s) = set s"
  by (metis sort_values_desc_mset set_mset_mset)

lemma sort_values_desc_defined:
  assumes "i < length (filter (\<lambda>(k, v). v \<noteq> None) s)"
  shows "\<exists>x. snd (sort_values_desc s ! i) = Some x"
proof -
  let ?d = "rev (sort_key snd (rev [(k, x). (k, Some x) \<leftarrow> s]))"
  have "i < length ?d" using assms by (simp add: non_nans_length)
  then show ?thesis
    by (simp add: sort_values_desc_def Let_def nth_append case_prod_beta)
qed

lemma sort_values_desc_nan:
  assumes "length (filter (\<lambda>(k, v). v \<noteq> None) s) \<le> i" and "i < length s"
  shows "snd (sort_values_desc s ! i) = None"
proof -
  let ?d = "rev (sort_key snd (rev [(k, x). (k, Some x) \<leftarrow> s]))"
  let ?nans = "filter (\<lambda>(k, v). v = None) s"
  have d: "length ?d = length (filter (\<lambda>(k, v). v \<noteq> None) s)" by (simp add: non_nans_length)
  have "length (sort_values_desc s) = length ?d + length ?nans"
    by (simp add: sort_values_desc_def Let_def)
  with assms d have "i - length ?d < length ?nans" by (simp add: sort_values_desc_length)
  then have "?nans ! (i - length ?d) \<in> set ?nans" by (rule nth_mem)
  then have "snd (?nans ! (i - length ?d)) = None" by auto
  with assms d show ?thesis
    by (simp add: sort_values_desc_def Let_def nth_append)
qed

lemma sort_values_desc_order:
  assumes "a < b" and "b < length (sort_values_desc s)" and "snd (sort_values_desc s ! b) = Some y"
  shows "\<exists>x. snd (sort_values_desc s ! a) = Some x \<and> y \<le> x"
proof -
  let ?d = "rev (sort_key snd (rev [(k, x). (k, Some x) \<leftarrow> s]))"
  have d: "length ?d = length (filter (\<lambda>(k, v). v \<noteq> None) s)" by (simp add: non_nans_length)
  have b: "b < length ?d"
  proof (rule ccontr)
    assume "\<not> b < length ?d"
    then have "snd (sort_values_desc s ! b) = None"
      using assms(2) d by (intro sort_values_desc_nan) (simp_all add: sort_values_desc_length)
    with assms(3) show False by simp
  qed
  have "sorted (rev (map snd ?d))" by (simp add: rev_map [symmetric])
  then have le: "map snd ?d ! b \<le> map snd ?d ! a"
    using assms(1) b by (simp add: sorted_rev_iff_nth_mono del: rev_rev_ident)
  have "snd (sort_values_desc s ! b) = Some (snd (?d ! b))"
    using b by (simp add: sort_values_desc_def Let_def nth_append case_prod_beta)
  moreover have "snd (sort_values_desc s ! a) = Some (snd (?d ! a))"
    using b assms(1) by (simp add: sort_values_desc_def Let_def nth_append case_prod_beta)
  ultimately show ?thesis using le assms(1,3) b by simp
qed

lemma slice_bound_left_error: "slice_bound_left idx label = Inl e \<Longrightarrow> e = KeyError"
  unfolding slice_bound_left_def Let_def by (simp split: if_splits)

lemma loc_from_error:
  "loc_from df label = Inl e \<Longrightarrow> e = KeyError \<or> e = IncompatibleFrequency"
  unfolding loc_from_def
  by (cases "slice_bound_left (index df) label") (auto split: if_splits dest: slice_bound_left_error)

lemma sorted_run_ends:
  assumes "sorted (idx :: int list)"
  shows "label \<notin> set (dropWhile (\<lambda>k. k = label) (dropWhile (\<lambda>k. k \<noteq> label) idx))"
proof
  define ys where "ys = dropWhile (\<lambda>k. k \<noteq> label) idx"
  define zs where "zs = dropWhile (\<lambda>k. k = label) ys"
  assume "label \<in> set (dropWhile (\<lambda>k. k = label) (dropWhile (\<lambda>k. k \<noteq> label) idx))"
  then have mem: "label \<in> set zs" by (simp add: ys_def zs_def)
  then have zne: "zs \<noteq> []" by auto
  then have "\<not> hd zs = label" unfolding zs_def by (rule hd_dropWhile)
  then have z: "hd zs \<noteq> label" .
  have sy: "sorted ys" unfolding ys_def using assms by (rule sorted_dropWhile)
  then have sz: "sorted zs" unfolding zs_def by (rule sorted_dropWhile)
  from zne have yne: "ys \<noteq> []" unfolding zs_def by auto
  then have "\<not> hd ys \<noteq> label" unfolding ys_def by (rule hd_dropWhile)
  then have y: "hd ys = label" by simp
  have "hd zs \<in> set zs" using zne by simp
  then have "hd zs \<in> set ys" unfolding zs_def by (rule set_dropWhileD)
  with sy yne y have "label \<le> hd zs" by (cases ys) auto
  with z have "label < hd zs" by simp
  moreover from sz zne mem have "hd zs \<le> label" by (cases zs) auto
  ultimately show False by simp
qed

lemma slice_bound_left_sorted:
  assumes "sorted idx"
  shows "\<exists>i. slice_bound_left idx label = Inr i"
proof (cases "label \<in> set idx")
  case True
  let ?i = "length (takeWhile (\<lambda>k. k \<noteq> label) idx)"
  let ?run = "takeWhile (\<lambda>k. k = label) (drop ?i idx)"
  have "drop (?i + length ?run) idx = drop (length ?run) (drop ?i idx)"
    by (simp add: add.commute)
  also have "\<dots> = dropWhile (\<lambda>k. k = label) (dropWhile (\<lambda>k. k \<noteq> label) idx)"
    by (simp add: dropWhile_eq_drop [symmetric])
  finally have "label \<notin> set (drop (?i + length ?run) idx)"
    using sorted_run_ends [OF assms] by simp
  with True show ?thesis by (simp add: slice_bound_left_def Let_def)
next
  case False
  with assms show ?thesis by (simp add: slice_bound_left_def)
qed

lemma loc_from_sorted:
  assumes "idx_freq df = MonthEnd" and "sorted (index df)"
  shows "\<exists>rs. loc_from df label = Inr rs"
  using assms slice_bound_left_sorted [of "index df" label]
  by (auto simp: loc_from_def)

section \<open>Properties of the correlation table\<close>

lemma spread_months_error: "spread_months ms tr other = Inl e \<Longrightarrow> e = IndexError"
  by (induction ms tr other rule: spread_months.induct) (auto split: list.splits)

lemma spread_months_keys: "spread_months ms tr other = Inr other' \<Longrightarrow> map fst other' = map fst other"
proof (induction ms tr other rule: spread_months.induct)
  case (1 tr other)
  then show ?case by simp
next
  case (2 m ms tr other)
  then show ?case
    by (auto split: list.splits simp: comp_def case_prod_beta if_distrib cong: if_cong)
qed

lemma spread_months_Inr_iff:
  "(\<exists>other'. spread_months ms tr other = Inr other') \<longleftrightarrow>
   (\<forall>m\<in>set ms. \<exists>k\<in>fst ` set tr. month_of k = m)"
proof (induction ms tr other rule: spread_months.induct)
  case (1 tr other)
  then show ?case by simp
next
  case (2 m ms tr other)
  show ?case
  proof (cases "filter (\<lambda>(k, r). month_of k = m) tr")
    case Nil
    then have "\<not> (\<exists>k\<in>fst ` set tr. month_of k = m)"
      by (auto simp: filter_empty_conv)
    with Nil show ?thesis by simp
  next
    case (Cons a as)
    then have "a \<in> set (filter (\<lambda>(k, r). month_of k = m) tr)" by simp
    then have "\<exists>k\<in>fst ` set tr. month_of k = m" by force
    with Cons 2 show ?thesis by (cases a) auto
  qed
qed

lemma spread_months_contiguous:
  assumes "contiguous (map fst rs)" and "12 \<le> length rs"
  shows "\<exists>other. spread_months [1..12] (iloc_last 12 rs) rs = Inr other"
proof -
  let ?tr = "iloc_last 12 rs"
  have keys: "map fst ?tr = drop (length rs - 12) (map fst rs)"
    by (simp add: iloc_last_def drop_map)
  have c: "contiguous (map fst ?tr)"
    unfolding keys using assms(1) by (rule contiguous_drop)
  have l: "length (map fst ?tr) = 12"
    using assms(2) by (simp add: iloc_last_def)
  have "\<forall>m\<in>set [1..12]. \<exists>k\<in>fst ` set ?tr. month_of k = m"
  proof
    fix m :: int assume "m \<in> set [1..12]"
    then have "1 \<le> m" "m \<le> 12" by simp_all
    from twelve_months_cover [OF c l this] show "\<exists>k\<in>fst ` set ?tr. month_of k = m"
      by simp
  qed
  then show ?thesis by (simp only: spread_months_Inr_iff)
qed

lemma spread_months_short:
  assumes "length tr < 12"
  shows "spread_months [1..12] tr other = Inl IndexError"
proof (cases "spread_months [1..12] tr other")
  case (Inl e)
  then show ?thesis using spread_months_error by blast
next
  case (Inr other')
  then have "\<forall>m\<in>set [1..12]. \<exists>k\<in>fst ` set tr. month_of k = m"
    using spread_months_Inr_iff [of "[1..12]" tr other] by blast
  then have "{1..12} \<subseteq> month_of ` fst ` set tr" by force
  then have "card {1..12::int} \<le> card (month_of ` fst ` set tr)"
    by (intro card_mono) auto
  also have "\<dots> \<le> card (set tr)"
    by (metis card_image_le List.finite_set finite_imageI order_trans)
  also have "\<dots> \<le> length tr" by (rule card_length)
  finally show ?thesis using assms by simp
qed

lemma rolling12_corr_keys: "map fst (rolling12_corr rc n df_ref df_other) = map fst df_ref"
  unfolding rolling12_corr_def by (rule nth_equalityI) simp_all

lemma calc_corr_last12_Inr:
  assumes "calc_corr_last12 rc df = Inr corr"
  shows "idx_freq df = MonthEnd" and "rows df \<noteq> []"
    and "idx_freq corr = MonthEnd" and "columns corr = columns df"
    and "index corr = filter (\<lambda>k. month_of k = month_of (last (index df))) (index df)"
proof -
  show f: "idx_freq df = MonthEnd"
    using assms by (auto simp: calc_corr_last12_def split: if_splits)
  from assms f obtain other final where
    sp: "spread_months [1..12] (iloc_last 12 (rows df)) (rows df) = Inr other" and
    fin: "py_index (map fst (iloc_last 12 (rows df))) (- 1) = Inr final" and
    corr: "corr = df\<lparr>idx_name := Some ''mes_final'',
                     rows := filter (\<lambda>(k, r). month_of k = month_of final)
                       (rolling12_corr rc (length (columns df)) (rows df) other)\<rparr>"
    by (auto simp: calc_corr_last12_def Let_def split: sum.splits)
  from fin show ne: "rows df \<noteq> []"
    by (auto simp: py_index_last iloc_last_def split: if_splits)
  from fin ne have final: "final = last (index df)"
    by (auto simp: py_index_last index_def last_map iloc_last_Nil last_iloc_last split: if_splits)
  show "idx_freq corr = MonthEnd" "columns corr = columns df"
    using corr f by simp_all
  show "index corr = filter (\<lambda>k. month_of k = month_of (last (index df))) (index df)"
    using corr final by (simp add: index_def filter_keys rolling12_corr_keys)
qed

lemma calc_corr_last12_monthly:
  assumes "idx_freq df = MonthEnd" and "contiguous (index df)" and "12 \<le> length (rows df)"
  shows "\<exists>corr. calc_corr_last12 rc df = Inr corr"
proof -
  from assms(2,3) obtain other where
    "spread_months [1..12] (iloc_last 12 (rows df)) (rows df) = Inr other"
    using spread_months_contiguous [of "rows df"] by (auto simp: index_def)
  moreover have "iloc_last 12 (rows df) \<noteq> []"
    using assms(3) by (auto simp: iloc_last_Nil)
  ultimately show ?thesis
    using assms(1) by (simp add: calc_corr_last12_def Let_def py_index_last)
qed

lemma spread_months_map:
  "spread_months ms tr other = Inr other' \<Longrightarrow> other' = map (spread_row ms tr) other"
proof (induction ms arbitrary: other)
  case Nil
  then show ?case by (simp add: spread_row_def case_prod_beta)
next
  case (Cons m ms)
  from Cons.prems obtain k0 r0 rest where
    f: "filter (\<lambda>(k, r). month_of k = m) tr = (k0, r0) # rest" and
    s: "spread_months ms tr
          (map (\<lambda>(k', r'). if month_of k' = m then (k', r0) else (k', r')) other) = Inr other'"
    by (auto split: list.splits)
  have "spread_row ms tr (if month_of k' = m then (k', r0) else (k', r')) =
        spread_row (m # ms) tr (k', r')" for k' r'
    by (simp add: spread_row_def f)
  then have "map (spread_row ms tr)
               (map (\<lambda>(k', r'). if month_of k' = m then (k', r0) else (k', r')) other) =
             map (spread_row (m # ms) tr) other"
    by (simp add: case_prod_beta)
  with Cons.IH [OF s] show ?case by simp
qed

lemma filter_distinct_key:
  "distinct (map f xs) \<Longrightarrow> x \<in> set xs \<Longrightarrow> filter (\<lambda>y. f y = f x) xs = [x]"
proof (induction xs)
  case Nil
  then show ?case by simp
next
  case (Cons a xs)
  show ?case
  proof (cases "a = x")
    case True
    with Cons.prems have "\<forall>y\<in>set xs. f y \<noteq> f x" by (metis distinct.simps(2) image_eqI list.simps(9) set_map)
    then have "filter (\<lambda>y. f y = f x) xs = []" by (simp add: filter_empty_conv)
    with True show ?thesis by simp
  next
    case False
    with Cons.prems have "x \<in> set xs" and "f a \<noteq> f x" by force+
    with Cons show ?thesis by simp
  qed
qed

lemma contiguous_months_distinct:
  assumes "contiguous ks" and "length ks \<le> 12"
  shows "distinct (map month_of ks)"
proof -
  have inj: "i = j"
    if "i < length ks" "j < length ks" "month_of (ks ! i) = month_of (ks ! j)" for i j
  proof -
    from that assms(2) have b: "i < 12" "j < 12" by simp_all
    from that have "ks ! i = hd ks + int i" "ks ! j = hd ks + int j"
      using contiguous_nth [OF assms(1)] by simp_all
    with that(3) have "(hd ks + int i) mod 12 = (hd ks + int j) mod 12"
      by (simp add: month_of_def)
    then have "12 dvd (hd ks + int i) - (hd ks + int j)"
      by (simp only: mod_eq_dvd_iff)
    then have "12 dvd int i - int j" by simp
    with b show "i = j" by presburger
  qed
  show ?thesis
    unfolding distinct_conv_nth
  proof (intro allI impI)
    fix i j
    assume "i < length (map month_of ks)" "j < length (map month_of ks)" "i \<noteq> j"
    then show "map month_of ks ! i \<noteq> map month_of ks ! j"
      using inj [of i j] by auto
  qed
qed

lemma last_filter_keep: "xs \<noteq> [] \<Longrightarrow> P (last xs) \<Longrightarrow> last (filter P xs) = last xs"
  by (induction xs rule: rev_induct) simp_all

lemma spread_months_trailing:
  assumes c: "contiguous (map fst rs)" and l: "12 \<le> length rs"
    and s: "spread_months [1..12] (iloc_last 12 rs) rs = Inr other"
  shows "iloc_last 12 other = iloc_last 12 rs"
proof -
  let ?tr = "iloc_last 12 rs"
  have o: "other = map (spread_row [1..12] ?tr) rs" using s by (rule spread_months_map)
  have "contiguous (map fst ?tr)"
    using contiguous_drop [OF c] by (simp add: iloc_last_def drop_map)
  moreover have "length (map fst ?tr) \<le> 12" by (simp add: iloc_last_def)
  ultimately have "distinct (map month_of (map fst ?tr))" by (rule contiguous_months_distinct)
  then have d: "distinct (map (month_of \<circ> fst) ?tr)" by simp
  have "spread_row [1..12] ?tr x = x" if "x \<in> set ?tr" for x
  proof -
    from filter_distinct_key [OF d that]
    have "filter (\<lambda>(k', r'). month_of k' = month_of (fst x)) ?tr = [x]"
      by (simp add: case_prod_unfold)
    moreover have "month_of (fst x) \<in> set [1..12]"
      using month_of_range [of "fst x"] by simp
    ultimately show ?thesis by (simp add: spread_row_def case_prod_beta)
  qed
  then have "map (spread_row [1..12] ?tr) ?tr = ?tr" by (rule map_idI)
  moreover have "iloc_last 12 other = map (spread_row [1..12] ?tr) ?tr"
    unfolding o iloc_last_def by (simp add: drop_map)
  ultimately show ?thesis by simp
qed

lemma rolling12_corr_last:
  assumes "df_ref \<noteq> []"
  shows "last (rolling12_corr rc n df_ref df_other) =
           (fst (last df_ref),
            map (\<lambda>j. rc (length df_ref - 1) (column_values j df_ref) (column_values j df_other))
              [0..<n])"
proof -
  let ?F = "\<lambda>i. (fst (df_ref ! i),
                map (\<lambda>j. rc i (column_values j df_ref) (column_values j df_other)) [0..<n])"
  from assms have ne: "[0..<length df_ref] \<noteq> []" by simp
  have "last (map ?F [0..<length df_ref]) = ?F (last [0..<length df_ref])"
    using ne by (rule last_map)
  also from assms have "last [0..<length df_ref] = length df_ref - 1" by simp
  also from assms have "df_ref ! (length df_ref - 1) = last df_ref"
    by (rule last_conv_nth [symmetric])
  finally show ?thesis unfolding rolling12_corr_def .
qed

text \<open>
  The last row of the correlation table correlates the last 12 months with themselves:
  on those rows the spread table \<open>df_other\<close> is the history, so both windows that the
  windowed correlation reads at the last position hold the same cells.
\<close>

lemma calc_corr_last12_final_row:
  assumes c: "contiguous (index df)" and l: "12 \<le> length (rows df)"
    and r: "calc_corr_last12 rc df = Inr corr"
  shows "\<exists>df_other.
           length df_other = length (rows df) \<and>
           iloc_last 12 df_other = iloc_last 12 (rows df) \<and>
           last (rows corr) =
             (last (index df),
              map (\<lambda>j. rc (length (rows df) - 1) (column_values j (rows df))
                          (column_values j df_other))
                [0..<length (columns df)])"
proof -
  from r calc_corr_last12_Inr(1) [OF r] obtain other final where
    sp: "spread_months [1..12] (iloc_last 12 (rows df)) (rows df) = Inr other" and
    fin: "py_index (map fst (iloc_last 12 (rows df))) (- 1) = Inr final" and
    corr: "rows corr = filter (\<lambda>(k, r). month_of k = month_of final)
                       (rolling12_corr rc (length (columns df)) (rows df) other)"
    by (auto simp: calc_corr_last12_def Let_def split: sum.splits)
  let ?tr = "iloc_last 12 (rows df)"
  let ?rc = "rolling12_corr rc (length (columns df)) (rows df) other"
  from l have ne: "rows df \<noteq> []" by auto
  then have tr_ne: "?tr \<noteq> []" by (simp add: iloc_last_Nil)
  then have "py_index (map fst ?tr) (- 1) = Inr (last (map fst ?tr))"
    by (simp add: py_index_last)
  with fin have "final = last (map fst ?tr)" by simp
  also have "\<dots> = fst (last ?tr)" using tr_ne by (rule last_map)
  also have "last ?tr = last (rows df)" using ne by (simp add: last_iloc_last)
  finally have final: "final = fst (last (rows df))" .
  have idx: "last (index df) = fst (last (rows df))"
    unfolding index_def using ne by (rule last_map)
  have lastrc: "last ?rc =
      (fst (last (rows df)),
       map (\<lambda>j. rc (length (rows df) - 1) (column_values j (rows df)) (column_values j other))
         [0..<length (columns df)])"
    using ne by (rule rolling12_corr_last)
  have nerc: "?rc \<noteq> []" using ne by (simp add: rolling12_corr_def)
  have keep: "(\<lambda>(k, r). month_of k = month_of final) (last ?rc)"
    unfolding lastrc final by simp
  have "last (rows corr) = last ?rc"
    unfolding corr using nerc keep by (rule last_filter_keep)
  moreover have "length other = length (rows df)"
    using arg_cong [OF spread_months_keys [OF sp], of length] by simp
  moreover have "iloc_last 12 other = iloc_last 12 (rows df)"
    using c l sp unfolding index_def by (rule spread_months_trailing)
  ultimately show ?thesis unfolding lastrc idx by blast
qed

text \<open>The Pearson correlation of a window with itself is 1 unless its variance is zero.\<close>

lemma codeviation_self_nonneg: "0 \<le> codeviation xs xs"
  unfolding codeviation_def by (rule sum_list_nonneg) (auto simp: zip_same)

lemma pearson_self: "codeviation xs xs \<noteq> 0 \<Longrightarrow> pearson xs xs = Some 1"
  using codeviation_self_nonneg [of xs] by (simp add: pearson_def)

lemma window_cells_last:
  assumes "12 \<le> length xs"
  shows "window_cells (length xs - 1) xs =
           (if None \<in> set (iloc_last 12 xs) then None else Some (map the (iloc_last 12 xs)))"
proof -
  from assms have "length xs - 1 - 11 = length xs - 12" by simp
  moreover from assms have "take 12 (drop (length xs - 12) xs) = drop (length xs - 12) xs" by simp
  moreover from assms have "\<not> length xs - 1 < 11" by simp
  ultimately show ?thesis by (simp add: window_cells_def iloc_last_def)
qed

section \<open>Properties of the model\<close>

lemma fit_None:
  assumes "fit rc self df = (None, self')"
  obtains corr j k v where
    "calc_corr_last12 rc df = Inr corr"
    "col_pos (coluna self) (columns corr) = Some j"
    "py_index (sort_values_desc (series j (rows corr))) (posicao self) = Inr (k, v)"
    "self' = self\<lparr>df_base := Some df, df_correlacao := Some corr, period_fit := Some k,
       correlacao_fit := Some v,
       correlacao_outros_fit := Some (map snd (filter (\<lambda>(k', r). k' = k) (rows corr))),
       mes_final_periodo_fit := Some (strftime_Y_m k)\<rparr>"
  using assms
  by (auto simp: fit_def Let_def split: sum.splits option.splits prod.splits)

lemma fit_fst_None_iff:
  "fst (fit rc self df) = None \<longleftrightarrow>
   (\<exists>corr j kv. calc_corr_last12 rc df = Inr corr \<and>
      col_pos (coluna self) (columns corr) = Some j \<and>
      py_index (sort_values_desc (series j (rows corr))) (posicao self) = Inr kv)"
  by (auto simp: fit_def Let_def split: sum.splits option.splits prod.splits)

lemma fit_keeps_parameters:
  "coluna (snd (fit rc self df)) = coluna self" "posicao (snd (fit rc self df)) = posicao self"
  by (auto simp: fit_def Let_def split: sum.splits option.splits prod.splits)

lemma fit_period:
  "period_fit (snd (fit rc self df)) = None \<longleftrightarrow>
   period_fit self = None \<and> fst (fit rc self df) \<noteq> None"
  by (auto simp: fit_def Let_def split: sum.splits option.splits prod.splits)

lemma fit_None_state:
  assumes "fit rc self df = (None, self')"
  shows "df_base self' = Some df" and "\<exists>p. period_fit self' = Some p"
    and "idx_freq df = MonthEnd" and "rows df \<noteq> []"
proof -
  from assms obtain corr j k v where
    c: "calc_corr_last12 rc df = Inr corr" and
    s: "self' = self\<lparr>df_base := Some df, df_correlacao := Some corr, period_fit := Some k,
       correlacao_fit := Some v,
       correlacao_outros_fit := Some (map snd (filter (\<lambda>(k', r). k' = k) (rows corr))),
       mes_final_periodo_fit := Some (strftime_Y_m k)\<rparr>"
    by (rule fit_None)
  from s show "df_base self' = Some df" "\<exists>p. period_fit self' = Some p" by simp_all
  from c show "idx_freq df = MonthEnd" "rows df \<noteq> []"
    by (rule calc_corr_last12_Inr)+
qed

lemma fit_calls_parameters:
  "coluna (fit_calls rc self dfs) = coluna self \<and> posicao (fit_calls rc self dfs) = posicao self"
  by (induction dfs arbitrary: self) (simp_all add: fit_keeps_parameters)

lemma fit_ok_parameters:
  assumes "coluna a = coluna b" and "posicao a = posicao b"
  shows "fst (fit rc a df) = None \<longleftrightarrow> fst (fit rc b df) = None"
  by (simp only: fit_fst_None_iff assms)

lemma fit_calls_period:
  "period_fit (fit_calls rc self dfs) = None \<longleftrightarrow>
   period_fit self = None \<and> (\<forall>df\<in>set dfs. fst (fit rc self df) \<noteq> None)"
proof (induction dfs arbitrary: self)
  case Nil
  then show ?case by simp
next
  case (Cons df dfs)
  have "\<And>d. fst (fit rc (snd (fit rc self df)) d) = None \<longleftrightarrow> fst (fit rc self d) = None"
    by (rule fit_ok_parameters) (simp_all add: fit_keeps_parameters)
  with Cons.IH [of "snd (fit rc self df)"] show ?case
    by (auto simp: fit_period)
qed

lemma predict_NotFittedError_iff:
  "predict self n = Inl NotFittedError \<longleftrightarrow> period_fit self = None"
proof (cases "period_fit self")
  case None
  then show ?thesis by (simp add: predict_def)
next
  case p: (Some p)
  show ?thesis
  proof (cases "df_base self")
    case None
    with p show ?thesis by (simp add: predict_def)
  next
    case b: (Some base)
    show ?thesis
    proof (cases "py_index (index base) (- 1)")
      case (Inl e)
      with p b py_index_error [OF Inl] show ?thesis by (simp add: predict_def)
    next
      case f: (Inr final)
      show ?thesis
      proof (cases "loc_from base (p + 1)")
        case (Inl e)
        with p b f loc_from_error [OF Inl] show ?thesis by (auto simp: predict_def)
      next
        case (Inr from_ini)
        with p b f show ?thesis by (simp add: predict_def Let_def)
      qed
    qed
  qed
qed

lemma predict_fitted:
  assumes "period_fit self = Some p" and "df_base self = Some df" and "rows df \<noteq> []"
  shows "predict self None = map_sum id (reindexed df (13 - month_of (p + 1))) (loc_from df (p + 1))"
    and "predict self (Some k) =
         map_sum id (reindexed df (if k = 0 then 13 - month_of (p + 1) else k)) (loc_from df (p + 1))"
proof -
  have l: "py_index (index df) (- 1) = Inr (last (index df))"
    using assms(3) by (simp add: py_index_last index_def)
  show "predict self None = map_sum id (reindexed df (13 - month_of (p + 1))) (loc_from df (p + 1))"
    by (cases "loc_from df (p + 1)") (simp_all add: predict_def assms(1,2) l Let_def reindexed_def)
  show "predict self (Some k) =
         map_sum id (reindexed df (if k = 0 then 13 - month_of (p + 1) else k)) (loc_from df (p + 1))"
    by (cases "loc_from df (p + 1)") (simp_all add: predict_def assms(1,2) l Let_def reindexed_def)
qed

lemma reindexed_simps:
  "columns (reindexed df h rs) = columns df"
  "idx_freq (reindexed df h rs) = MonthEnd"
  "length (rows (reindexed df h rs)) = length (iloc_upto h rs)"
  by (simp_all add: reindexed_def period_range_def)

lemma reindexed_index:
  "index (reindexed df h rs) = period_range (last (index df) + 1) (length (iloc_upto h rs))"
proof -
  have "map fst (zip (period_range (last (index df) + 1) (length (iloc_upto h rs)))
                     (map snd (iloc_upto h rs))) =
        period_range (last (index df) + 1) (length (iloc_upto h rs))"
    by (rule map_fst_zip) (simp add: period_range_def)
  moreover have "index (reindexed df h rs) = map fst (rows (reindexed df h rs))"
    by (rule index_def)
  ultimately show ?thesis by (simp add: reindexed_def)
qed

lemma reindexed_values: "map snd (rows (reindexed df h rs)) = map snd (iloc_upto h rs)"
proof -
  have "map snd (zip (period_range (last (index df) + 1) (length (iloc_upto h rs)))
                     (map snd (iloc_upto h rs))) = map snd (iloc_upto h rs)"
    by (rule map_snd_zip) (simp add: period_range_def)
  then show ?thesis by (simp add: reindexed_def)
qed

section \<open>The examples, evaluated\<close>

lemma calc_hist36: "calc_corr_last12 example_corr hist36 = Inr corr36"
  by code_simp

lemma fit_hist36: "fit example_corr (init 6 None) hist36 = (None, fitted36)"
  by code_simp

lemma fit_hist36_74: "fit example_corr (init 74 None) hist36 = (None, fitted36_74)"
  by code_simp

lemma fit_hist12: "fit example_corr (init 6 (Some 0)) hist12 = (None, fitted12)"
  by code_simp

lemma fit_daily3:
  "fit example_corr (init 6 None) daily3 = (Some FormatError, (init 6 None)\<lparr>df_base := Some daily3\<rparr>)"
  by code_simp

lemma fit_short3:
  "fit example_corr (init 6 None) short3 = (Some IndexError, (init 6 None)\<lparr>df_base := Some short3\<rparr>)"
  by code_simp

lemma top_corr36:
  "sort_values_desc (series 0 (rows corr36)) =
     [(398, Some 1), (386, Some (20164 / 20449)), (374, None)]"
  by code_simp

lemma top_corr36_74:
  "sort_values_desc (series 1 (rows corr36)) =
     [(398, Some 1), (374, Some (1875 / 7579)), (386, Some (- (1875 / 7579)))]"
  by code_simp

lemma hist14_ok:
  "idx_freq hist14 = MonthEnd" "contiguous (index hist14)" "12 \<le> length (rows hist14)"
  "(0::nat) < length (columns hist14)"
  by code_simp+

lemma hist14_window:
  "window_cells (length (rows hist14) - 1) (column_values 0 (rows hist14)) =
     Some [1, 2, 3, 4, 5, 6, 7, 8, 9, 10, 11, 12]"
  by code_simp

lemma hist14_dev: "codeviation [1, 2, 3, 4, 5, 6, 7, 8, 9, 10, 11, 12] [1, 2, 3, 4, 5, 6, 7, 8, 9, 10, 11, 12] = 143"
  by code_simp

lemma predict36_3:
  "predict fitted36 (Some 3) =
     Inr \<lparr>idx_freq = MonthEnd, idx_name = None, columns = [6, 74],
          rows = [(399, [Some 1, Some 3]), (400, [Some 2, Some 1]), (401, [Some 3, Some 4])]\<rparr>"
  by code_simp

lemma predict36_None:
  "predict fitted36 None =
     Inr \<lparr>idx_freq = MonthEnd, idx_name = None, columns = [6, 74],
          rows = [(399, [Some 1, Some 3]), (400, [Some 2, Some 1]), (401, [Some 3, Some 4]),
                  (402, [Some 4, Some 1]), (403, [Some 5, Some 5]), (404, [Some 6, Some 9]),
                  (405, [Some 7, Some 2]), (406, [Some 8, Some 6]), (407, [Some 9, Some 5])]\<rparr>"
  by code_simp

section \<open>The claims\<close>

text \<open>
  Claim C1: when \<^verbatim>\<open>fit\<close> succeeds with a non-negative \<open>posicao\<close>, the column \<open>coluna\<close>
  of the correlation table is sorted in descending order of correlation (every defined
  value is preceded only by defined values at least as large; the sorted series is a
  rearrangement of the column), and the selected period is the key at the 0-based
  position \<open>posicao\<close> of that order. The column sorted is the one labelled \<open>coluna\<close>: its
  position \<open>j\<close> is the first whose label is \<open>coluna\<close>. With \<open>posicao = 1\<close>, the default,
  the selected period is at position 1: the second entry, not the first.
\<close>

theorem fit_selects_rank:
  assumes "fit rc self df = (None, self')" and "0 \<le> posicao self"
  shows "\<exists>corr j top_corr.
           calc_corr_last12 rc df = Inr corr \<and> df_correlacao self' = Some corr \<and>
           col_pos (coluna self) (columns corr) = Some j \<and>
           j < length (columns corr) \<and> columns corr ! j = coluna self \<and>
           (\<forall>i<j. columns corr ! i \<noteq> coluna self) \<and>
           top_corr = sort_values_desc (series j (rows corr)) \<and>
           mset top_corr = mset (series j (rows corr)) \<and>
           (\<forall>a b y. a < b \<and> b < length top_corr \<and> snd (top_corr ! b) = Some y \<longrightarrow>
              (\<exists>x. snd (top_corr ! a) = Some x \<and> y \<le> x)) \<and>
           nat (posicao self) < length top_corr \<and>
           period_fit self' = Some (fst (top_corr ! nat (posicao self))) \<and>
           correlacao_fit self' = Some (snd (top_corr ! nat (posicao self))) \<and>
           (posicao self = 1 \<longrightarrow> period_fit self' = Some (fst (top_corr ! 1)))"
proof -
  from assms(1) obtain corr j k v where
    c: "calc_corr_last12 rc df = Inr corr" and
    j: "col_pos (coluna self) (columns corr) = Some j" and
    kv: "py_index (sort_values_desc (series j (rows corr))) (posicao self) = Inr (k, v)" and
    s: "self' = self\<lparr>df_base := Some df, df_correlacao := Some corr, period_fit := Some k,
       correlacao_fit := Some v,
       correlacao_outros_fit := Some (map snd (filter (\<lambda>(k', r). k' = k) (rows corr))),
       mes_final_periodo_fit := Some (strftime_Y_m k)\<rparr>"
    by (rule fit_None)
  let ?top = "sort_values_desc (series j (rows corr))"
  from kv assms(2) have pos: "nat (posicao self) < length ?top"
    and at: "?top ! nat (posicao self) = (k, v)"
    by (auto simp: py_index_nonneg split: if_splits)
  have ord: "\<forall>a b y. a < b \<and> b < length ?top \<and> snd (?top ! b) = Some y \<longrightarrow>
      (\<exists>x. snd (?top ! a) = Some x \<and> y \<le> x)"
    using sort_values_desc_order by blast
  have one: "posicao self = 1 \<longrightarrow> period_fit self' = Some (fst (?top ! 1))"
    using at s by auto
  note col = col_pos_Some [OF j]
  from c j col pos at s ord one show ?thesis
    by (simp add: sort_values_desc_mset)
qed

theorem fit_selects_rank_witness:
  "fit example_corr (init 74 None) hist36 = (None, fitted36_74) \<and>
   0 \<le> posicao (init 74 None :: (nat, rat) model) \<and>
   posicao (init 74 None :: (nat, rat) model) = 1 \<and>
   (\<exists>corr j top_corr.
      calc_corr_last12 example_corr hist36 = Inr corr \<and>
      j < length (columns corr) \<and> columns corr ! j = 74 \<and>
      (\<forall>i<j. columns corr ! i \<noteq> 74) \<and>
      top_corr = sort_values_desc (series j (rows corr)) \<and>
      period_fit fitted36_74 = Some (fst (top_corr ! 1))) \<and>
   calc_corr_last12 example_corr hist36 = Inr corr36 \<and> columns corr36 = [6, 74] \<and>
   sort_values_desc (series 1 (rows corr36)) =
     [(398, Some 1), (374, Some (1875 / 7579)), (386, Some (- (1875 / 7579)))] \<and>
   period_fit fitted36_74 = Some 374 \<and>
   fit example_corr (init 6 None) hist36 = (None, fitted36) \<and>
   (\<exists>corr j top_corr.
      calc_corr_last12 example_corr hist36 = Inr corr \<and>
      j < length (columns corr) \<and> columns corr ! j = 6 \<and>
      top_corr = sort_values_desc (series j (rows corr)) \<and>
      period_fit fitted36 = Some (fst (top_corr ! 1))) \<and>
   sort_values_desc (series 0 (rows corr36)) =
     [(398, Some 1), (386, Some (20164 / 20449)), (374, None)] \<and>
   period_fit fitted36 = Some 386"
proof -
  have h1: "fit example_corr (init 74 None) hist36 = (None, fitted36_74)"
    by (rule fit_hist36_74)
  have h2: "0 \<le> posicao (init 74 None :: (nat, rat) model)" by (simp add: init_def)
  have p: "posicao (init 74 None :: (nat, rat) model) = 1" by (simp add: init_def)
  have c: "coluna (init 74 None :: (nat, rat) model) = 74" by (simp add: init_def)
  have e: "period_fit fitted36_74 = Some 374" by (simp add: fitted36_74_def)
  have k: "columns corr36 = [6, 74]" by (simp add: corr36_def)
  from fit_selects_rank [OF h1 h2] have a:
    "\<exists>corr j top_corr.
      calc_corr_last12 example_corr hist36 = Inr corr \<and>
      j < length (columns corr) \<and> columns corr ! j = 74 \<and>
      (\<forall>i<j. columns corr ! i \<noteq> 74) \<and>
      top_corr = sort_values_desc (series j (rows corr)) \<and>
      period_fit fitted36_74 = Some (fst (top_corr ! 1))"
    unfolding p c by blast
  have g1: "fit example_corr (init 6 None) hist36 = (None, fitted36)" by (rule fit_hist36)
  have g2: "0 \<le> posicao (init 6 None :: (nat, rat) model)" by (simp add: init_def)
  have q: "posicao (init 6 None :: (nat, rat) model) = 1" by (simp add: init_def)
  have d: "coluna (init 6 None :: (nat, rat) model) = 6" by (simp add: init_def)
  have f: "period_fit fitted36 = Some 386" by (simp add: fitted36_def)
  from fit_selects_rank [OF g1 g2] have b:
    "\<exists>corr j top_corr.
      calc_corr_last12 example_corr hist36 = Inr corr \<and>
      j < length (columns corr) \<and> columns corr ! j = 6 \<and>
      top_corr = sort_values_desc (series j (rows corr)) \<and>
      period_fit fitted36 = Some (fst (top_corr ! 1))"
    unfolding q d by blast
  from h1 h2 p a calc_hist36 k top_corr36_74 e g1 b top_corr36 f show ?thesis
    by (intro conjI)
qed

text \<open>
  Claim C2, as the code has it: \<^verbatim>\<open>calc_corr_last12\<close> raises its format exception at entry
  if and only if the frequency of the table's index is not monthly. The number of rows
  and the contiguity of the months are not checked there: a monthly table of fewer than
  12 rows fails later, with the \<^verbatim>\<open>IndexError\<close> of the loop that spreads the last 12
  months, and a monthly table of at least 12 contiguous months raises nothing.
\<close>

theorem calc_corr_last12_validation:
  "(calc_corr_last12 rc df = Inl FormatError \<longleftrightarrow> idx_freq df \<noteq> MonthEnd) \<and>
   (idx_freq df = MonthEnd \<and> length (rows df) < 12 \<longrightarrow>
      calc_corr_last12 rc df = Inl IndexError) \<and>
   (idx_freq df = MonthEnd \<and> contiguous (index df) \<and> 12 \<le> length (rows df) \<longrightarrow>
      (\<exists>corr. calc_corr_last12 rc df = Inr corr))"
proof (intro conjI impI)
  show "calc_corr_last12 rc df = Inl FormatError \<longleftrightarrow> idx_freq df \<noteq> MonthEnd"
    by (auto simp: calc_corr_last12_def Let_def split: sum.splits
          dest: spread_months_error py_index_error)
next
  assume a: "idx_freq df = MonthEnd \<and> length (rows df) < 12"
  then have "length (iloc_last 12 (rows df)) < 12" by (simp add: iloc_last_def)
  then have "spread_months [1..12] (iloc_last 12 (rows df)) (rows df) = Inl IndexError"
    by (rule spread_months_short)
  with a show "calc_corr_last12 rc df = Inl IndexError"
    by (simp add: calc_corr_last12_def)
next
  assume "idx_freq df = MonthEnd \<and> contiguous (index df) \<and> 12 \<le> length (rows df)"
  then show "\<exists>corr. calc_corr_last12 rc df = Inr corr"
    using calc_corr_last12_monthly by blast
qed

theorem calc_corr_last12_validation_witness:
  "idx_freq hist36 = MonthEnd \<and> contiguous (index hist36) \<and> 12 \<le> length (rows hist36) \<and>
   (\<exists>corr. calc_corr_last12 example_corr hist36 = Inr corr) \<and>
   idx_freq short3 = MonthEnd \<and> length (rows short3) < 12 \<and>
   calc_corr_last12 example_corr short3 = Inl IndexError \<and>
   idx_freq daily3 \<noteq> MonthEnd \<and> calc_corr_last12 example_corr daily3 = Inl FormatError"
proof -
  have h: "idx_freq hist36 = MonthEnd \<and> contiguous (index hist36) \<and> 12 \<le> length (rows hist36)"
    by code_simp
  have s: "idx_freq short3 = MonthEnd \<and> length (rows short3) < 12" by code_simp
  have d: "idx_freq daily3 \<noteq> MonthEnd" by code_simp
  show ?thesis
    using h s d calc_corr_last12_validation [of example_corr hist36]
      calc_corr_last12_validation [of example_corr short3]
      calc_corr_last12_validation [of example_corr daily3]
    by blast
qed

text \<open>
  Claim C2 as stated fails on a contiguous monthly table of three rows: the exception
  is \<^verbatim>\<open>IndexError\<close>, not the format exception.
\<close>

theorem short_table_counterexample:
  "idx_freq short3 = MonthEnd \<and> contiguous (index short3) \<and> length (rows short3) < 12 \<and>
   calc_corr_last12 example_corr short3 = Inl IndexError"
  by code_simp

text \<open>
  Claim C3: for a model fitted on a history whose last month is \<open>M\<close> and a positive
  \<open>num_meses\<close>, every table \<^verbatim>\<open>predict\<close> returns has the monthly index
  \<open>M + 1, M + 2, \<dots>\<close>, the columns of the history and at most \<open>num_meses\<close> rows: its
  cells are those of the first \<open>num_meses\<close> rows of the history from the chosen start month
  on, fewer only when the history has fewer rows from there. And \<^verbatim>\<open>predict\<close> does
  return a table when the history's index is in ascending order.
\<close>

theorem predict_reindexed:
  assumes "fit rc self df = (None, self')" and "0 < n"
  shows "(\<forall>t. predict self' (Some n) = Inr t \<longrightarrow>
            index t = period_range (last (index df) + 1) (length (rows t)) \<and>
            columns t = columns df \<and> idx_freq t = MonthEnd \<and>
            int (length (rows t)) \<le> n \<and>
            (\<exists>p from_ini. period_fit self' = Some p \<and> loc_from df (p + 1) = Inr from_ini \<and>
               map snd (rows t) = map snd (take (nat n) from_ini) \<and>
               length (rows t) = min (nat n) (length from_ini))) \<and>
         (sorted (index df) \<longrightarrow> (\<exists>t. predict self' (Some n) = Inr t))"
proof -
  from fit_None_state [OF assms(1)] obtain p where
    st: "period_fit self' = Some p" "df_base self' = Some df" "rows df \<noteq> []"
    and f: "idx_freq df = MonthEnd"
    by blast
  from assms(2) have pr: "predict self' (Some n) = map_sum id (reindexed df n) (loc_from df (p + 1))"
    by (simp add: predict_fitted(2) [OF st])
  show ?thesis
  proof (intro conjI allI impI)
    fix t assume "predict self' (Some n) = Inr t"
    with pr obtain from_ini where t: "t = reindexed df n from_ini"
      and lf: "loc_from df (p + 1) = Inr from_ini"
      by (cases "loc_from df (p + 1)") auto
    show "index t = period_range (last (index df) + 1) (length (rows t))"
      and "columns t = columns df" and "idx_freq t = MonthEnd"
      unfolding t by (simp_all add: reindexed_simps reindexed_index)
    show "int (length (rows t)) \<le> n"
      unfolding t using assms(2) by (simp add: reindexed_simps iloc_upto_length)
    from assms(2) have up: "iloc_upto n from_ini = take (nat n) from_ini"
      by (simp add: iloc_upto_def)
    have "map snd (rows t) = map snd (take (nat n) from_ini)"
      unfolding t by (simp add: reindexed_values up)
    moreover have "length (rows t) = min (nat n) (length from_ini)"
      unfolding t by (simp add: reindexed_simps up)
    ultimately show "\<exists>p from_ini. period_fit self' = Some p \<and>
        loc_from df (p + 1) = Inr from_ini \<and>
        map snd (rows t) = map snd (take (nat n) from_ini) \<and>
        length (rows t) = min (nat n) (length from_ini)"
      using st(1) lf by blast
  next
    assume "sorted (index df)"
    from loc_from_sorted [OF f this, of "p + 1"] pr
    show "\<exists>t. predict self' (Some n) = Inr t"
      by auto
  qed
qed

theorem predict_reindexed_witness:
  "fit example_corr (init 6 None) hist36 = (None, fitted36) \<and> (0 :: int) < 3 \<and>
   sorted (index hist36) \<and> last (index hist36) = 398 \<and>
   (\<exists>t. predict fitted36 (Some 3) = Inr t \<and>
      index t = period_range (last (index hist36) + 1) (length (rows t)) \<and>
      columns t = columns hist36 \<and> int (length (rows t)) \<le> 3) \<and>
   predict fitted36 (Some 3) =
     Inr \<lparr>idx_freq = MonthEnd, idx_name = None, columns = [6, 74],
          rows = [(399, [Some 1, Some 3]), (400, [Some 2, Some 1]), (401, [Some 3, Some 4])]\<rparr>"
proof -
  have h1: "fit example_corr (init 6 None) hist36 = (None, fitted36)" by (rule fit_hist36)
  have h2: "(0 :: int) < 3" by simp
  have s: "sorted (index hist36)" by code_simp
  have l: "last (index hist36) = 398" by code_simp
  from predict_reindexed [OF h1 h2] s have
    "\<exists>t. predict fitted36 (Some 3) = Inr t \<and>
      index t = period_range (last (index hist36) + 1) (length (rows t)) \<and>
      columns t = columns hist36 \<and> int (length (rows t)) \<le> 3"
    by blast
  with h1 h2 s l predict36_3 show ?thesis by blast
qed

text \<open>
  Claim C4, as the code has it: \<^verbatim>\<open>predict\<close> on a freshly constructed model raises its
  not-fitted exception, whatever \<open>num_meses\<close> is; and after any sequence of \<^verbatim>\<open>fit\<close>
  calls on such a model it raises that exception exactly when none of the calls
  succeeded. A model on which \<^verbatim>\<open>fit\<close> was called and failed is therefore still
  reported as not fitted.
\<close>

theorem predict_not_fitted:
  "predict (init c p :: ('c, 'v::linorder) model) n = Inl NotFittedError \<and>
   (predict (fit_calls rc (init c p :: ('c, 'v) model) dfs) n = Inl NotFittedError \<longleftrightarrow>
      (\<forall>df\<in>set dfs. fst (fit rc (init c p) df) \<noteq> None))"
proof
  show "predict (init c p) n = Inl NotFittedError"
    by (simp add: predict_def init_def)
  show "predict (fit_calls rc (init c p) dfs) n = Inl NotFittedError \<longleftrightarrow>
      (\<forall>df\<in>set dfs. fst (fit rc (init c p) df) \<noteq> None)"
    by (simp add: predict_NotFittedError_iff fit_calls_period) (simp add: init_def)
qed

theorem predict_not_fitted_witness:
  "predict (init 6 None :: (nat, rat) model) None = Inl NotFittedError \<and>
   fst (fit example_corr (init 6 None) daily3) \<noteq> None \<and>
   fst (fit example_corr (init 6 None) short3) \<noteq> None \<and>
   predict (fit_calls example_corr (init 6 None) [daily3, short3]) None = Inl NotFittedError \<and>
   fst (fit example_corr (init 6 None) hist36) = None \<and>
   predict (fit_calls example_corr (init 6 None) [daily3, hist36]) None \<noteq> Inl NotFittedError"
proof -
  have d: "fst (fit example_corr (init 6 None) daily3) \<noteq> None" by (simp add: fit_daily3)
  have s: "fst (fit example_corr (init 6 None) short3) \<noteq> None" by (simp add: fit_short3)
  have h: "fst (fit example_corr (init 6 None) hist36) = None" by (simp add: fit_hist36)
  from predict_not_fitted [of 6 None None example_corr "[daily3, short3]"] d s
  have a: "predict (init 6 None :: (nat, rat) model) None = Inl NotFittedError"
    and b: "predict (fit_calls example_corr (init 6 None) [daily3, short3]) None = Inl NotFittedError"
    by simp_all
  from predict_not_fitted [of 6 None None example_corr "[daily3, hist36]"] h
  have c: "predict (fit_calls example_corr (init 6 None) [daily3, hist36]) None \<noteq> Inl NotFittedError"
    by simp
  from a b c d s h show ?thesis by blast
qed

text \<open>
  Claim C4 as stated fails after a failed \<^verbatim>\<open>fit\<close>: the call on a daily table raises the
  format exception and changes the model, and \<^verbatim>\<open>predict\<close> then raises the not-fitted
  exception although \<^verbatim>\<open>fit\<close> has been called.
\<close>

theorem failed_fit_counterexample:
  "fst (fit example_corr (init 6 None) daily3) = Some FormatError \<and>
   snd (fit example_corr (init 6 None) daily3) \<noteq> init 6 None \<and>
   predict (snd (fit example_corr (init 6 None) daily3)) None = Inl NotFittedError"
  by code_simp

text \<open>
  Claim C5: for a fitted model with selected period \<open>p\<close>, \<^verbatim>\<open>predict()\<close> without
  \<open>num_meses\<close> is \<^verbatim>\<open>predict\<close> with \<open>13 - month\<close>, where \<open>month\<close> is the calendar month of
  \<open>p + 1\<close>; this number lies between 1 and 12, the table returned has at most that many
  rows, and a table is returned when the history's index is in ascending order.
\<close>

theorem predict_default_horizon:
  assumes "fit rc self df = (None, self')"
  shows "\<exists>p. period_fit self' = Some p \<and>
           1 \<le> 13 - month_of (p + 1) \<and> 13 - month_of (p + 1) \<le> 12 \<and>
           predict self' None = predict self' (Some (13 - month_of (p + 1))) \<and>
           (\<forall>t. predict self' None = Inr t \<longrightarrow>
              int (length (rows t)) \<le> 13 - month_of (p + 1)) \<and>
           (sorted (index df) \<longrightarrow> (\<exists>t. predict self' None = Inr t))"
proof -
  from fit_None_state [OF assms(1)] obtain p where
    st: "period_fit self' = Some p" "df_base self' = Some df" "rows df \<noteq> []"
    and f: "idx_freq df = MonthEnd"
    by blast
  let ?n = "13 - month_of (p + 1)"
  have n: "1 \<le> ?n" "?n \<le> 12" using month_of_range [of "p + 1"] by simp_all
  have pr: "predict self' None = map_sum id (reindexed df ?n) (loc_from df (p + 1))"
    by (rule predict_fitted(1) [OF st])
  have eq: "predict self' None = predict self' (Some ?n)"
    unfolding pr by (simp add: predict_fitted(2) [OF st])
  have len: "\<forall>t. predict self' None = Inr t \<longrightarrow> int (length (rows t)) \<le> ?n"
  proof (intro allI impI)
    fix t assume "predict self' None = Inr t"
    with pr obtain from_ini where t: "t = reindexed df ?n from_ini"
      by (cases "loc_from df (p + 1)") auto
    from n(1) show "int (length (rows t)) \<le> ?n"
      unfolding t by (simp add: reindexed_simps iloc_upto_length)
  qed
  have ex: "sorted (index df) \<longrightarrow> (\<exists>t. predict self' None = Inr t)"
    using loc_from_sorted [OF f, of "p + 1"] pr by auto
  from st(1) n eq len ex show ?thesis by blast
qed

theorem predict_default_horizon_witness:
  "fit example_corr (init 6 None) hist36 = (None, fitted36) \<and> sorted (index hist36) \<and>
   period_fit fitted36 = Some 386 \<and> month_of 387 = 4 \<and>
   predict fitted36 None = predict fitted36 (Some 9) \<and>
   (\<exists>t. predict fitted36 None = Inr t \<and> length (rows t) = 9)"
proof -
  have h1: "fit example_corr (init 6 None) hist36 = (None, fitted36)" by (rule fit_hist36)
  have s: "sorted (index hist36)" by code_simp
  have e: "period_fit fitted36 = Some 386" by (simp add: fitted36_def)
  have m: "month_of 387 = 4" by (simp add: month_of_def)
  from predict_default_horizon [OF h1] e
  have "predict fitted36 None = predict fitted36 (Some (13 - month_of (386 + 1)))" by auto
  then have d: "predict fitted36 None = predict fitted36 (Some 9)" by (simp add: m)
  have "\<exists>t. predict fitted36 None = Inr t \<and> length (rows t) = 9"
    by (simp add: predict36_None)
  with h1 s e m d show ?thesis by blast
qed

text \<open>
  Claim C6, as the code has it: when the correlation fails on the table, \<^verbatim>\<open>fit\<close> raises
  the same exception and leaves every attribute as it was except \<open>df_base\<close>, which already
  holds the rejected table (line 116 runs before line 117).
\<close>

theorem fit_failure_state:
  assumes "calc_corr_last12 rc df = Inl e"
  shows "fit rc self df = (Some e, self\<lparr>df_base := Some df\<rparr>)"
  using assms by (simp add: fit_def)

theorem fit_failure_state_witness:
  "calc_corr_last12 example_corr daily3 = Inl FormatError \<and>
   fit example_corr (init 6 None) daily3 =
     (Some FormatError, (init 6 None)\<lparr>df_base := Some daily3\<rparr>)"
proof -
  have h: "calc_corr_last12 example_corr daily3 = Inl FormatError" by code_simp
  from fit_failure_state [OF h, of "init 6 None"] h show ?thesis by blast
qed

text \<open>
  Claim C6 as stated fails on a fresh model and a daily table: after the failed call the
  stored history is the rejected table, so the model is not the one before the call.
\<close>

theorem fit_failure_keeps_history_counterexample:
  "calc_corr_last12 example_corr daily3 = Inl FormatError \<and>
   fst (fit example_corr (init 6 None) daily3) = Some FormatError \<and>
   df_base (init 6 None :: (nat, rat) model) = None \<and>
   df_base (snd (fit example_corr (init 6 None) daily3)) = Some daily3 \<and>
   snd (fit example_corr (init 6 None) daily3) \<noteq> init 6 None"
  by code_simp

text \<open>
  Claim C7, with the windowed correlation of the spec (the exact Pearson correlation of
  the 12 rows ending at a row): for a monthly table of at least 12 contiguous months
  the correlation table is returned, its last row is keyed by the table's last month,
  and it holds 1 in every column whose last 12 cells are all present and have nonzero
  variance.
\<close>

theorem final_row_self_correlation:
  assumes "idx_freq df = MonthEnd" and "contiguous (index df)" and "12 \<le> length (rows df)"
    and "j < length (columns df)"
    and "window_cells (length (rows df) - 1) (column_values j (rows df)) = Some w"
    and "codeviation w w \<noteq> 0"
  shows "\<exists>corr. calc_corr_last12 pearson12 df = Inr corr \<and> rows corr \<noteq> [] \<and>
           fst (last (rows corr)) = last (index df) \<and>
           cell (snd (last (rows corr))) j = Some 1"
proof -
  from calc_corr_last12_monthly [OF assms(1-3)] obtain corr where
    corr: "calc_corr_last12 pearson12 df = Inr corr" by blast
  from calc_corr_last12_final_row [OF assms(2,3) corr] obtain df_other where
    len: "length df_other = length (rows df)" and
    tr: "iloc_last 12 df_other = iloc_last 12 (rows df)" and
    lst: "last (rows corr) =
      (last (index df),
       map (\<lambda>j. pearson12 (length (rows df) - 1) (column_values j (rows df))
                   (column_values j df_other))
         [0..<length (columns df)])"
    by blast
  let ?n = "length (rows df)"
  let ?xs = "column_values j (rows df)"
  let ?ys = "column_values j df_other"
  have lx: "length ?xs = ?n" and ly: "length ?ys = ?n"
    by (simp_all add: column_values_def len)
  have same: "iloc_last 12 ?ys = iloc_last 12 ?xs"
    by (simp only: column_values_iloc_last tr)
  have gx: "12 \<le> length ?xs" and gy: "12 \<le> length ?ys"
    using assms(3) by (simp_all only: lx ly)
  have wx: "window_cells (length ?xs - 1) ?xs =
               (if None \<in> set (iloc_last 12 ?xs) then None
                else Some (map the (iloc_last 12 ?xs)))"
    using gx by (rule window_cells_last)
  have "window_cells (length ?ys - 1) ?ys =
               (if None \<in> set (iloc_last 12 ?ys) then None
                else Some (map the (iloc_last 12 ?ys)))"
    using gy by (rule window_cells_last)
  with wx have "window_cells (?n - 1) ?ys = window_cells (?n - 1) ?xs"
    unfolding lx ly same by simp
  then have wy: "window_cells (?n - 1) ?ys = Some w"
    using assms(5) by simp
  have p: "pearson12 (?n - 1) ?xs ?ys = Some 1"
    unfolding pearson12_def assms(5) wy by (simp add: pearson_self [OF assms(6)])
  have ne: "rows df \<noteq> []" using assms(3) by auto
  then have "index df \<noteq> []" by (simp add: index_def)
  then have "last (index df) \<in> set (index df)" by (rule last_in_set)
  then have "filter (\<lambda>k. month_of k = month_of (last (index df))) (index df) \<noteq> []"
    by (auto simp: filter_empty_conv)
  then have "index corr \<noteq> []"
    by (simp only: calc_corr_last12_Inr(5) [OF corr] not_False_eq_True)
  then have r: "rows corr \<noteq> []" by (auto simp: index_def)
  have "cell (snd (last (rows corr))) j = pearson12 (?n - 1) ?xs ?ys"
    unfolding lst snd_conv using assms(4) by (rule cell_map_upt)
  with p have c: "cell (snd (last (rows corr))) j = Some 1" by (simp only:)
  from lst have f: "fst (last (rows corr)) = last (index df)" by (simp only: fst_conv)
  from corr r f c show ?thesis by blast
qed

theorem final_row_self_correlation_witness:
  "idx_freq hist14 = MonthEnd \<and> contiguous (index hist14) \<and> 12 \<le> length (rows hist14) \<and>
   (0::nat) < length (columns hist14) \<and>
   window_cells (length (rows hist14) - 1) (column_values 0 (rows hist14)) =
     Some [1, 2, 3, 4, 5, 6, 7, 8, 9, 10, 11, 12] \<and>
   codeviation [1, 2, 3, 4, 5, 6, 7, 8, 9, 10, 11, 12]
               [1, 2, 3, 4, 5, 6, 7, 8, 9, 10, 11, 12] \<noteq> 0 \<and>
   (\<exists>corr. calc_corr_last12 pearson12 hist14 = Inr corr \<and> rows corr \<noteq> [] \<and>
      fst (last (rows corr)) = last (index hist14) \<and>
      cell (snd (last (rows corr))) 0 = Some 1)"
proof -
  have v: "codeviation [1, 2, 3, 4, 5, 6, 7, 8, 9, 10, 11, 12]
                       [1, 2, 3, 4, 5, 6, 7, 8, 9, 10, 11, 12] \<noteq> 0"
    by (simp add: hist14_dev)
  from final_row_self_correlation [OF hist14_ok hist14_window v] hist14_ok hist14_window v
  show ?thesis by (intro conjI)
qed

text \<open>
  Claim C8: for a monthly table of at least 12 contiguous months the correlation table
  is returned, its row keys are exactly the months of the input index whose calendar
  month is that of the input's last row, in the input's order, and its columns are the
  input's columns.
\<close>

theorem calc_corr_last12_rows:
  assumes "idx_freq df = MonthEnd" and "contiguous (index df)" and "12 \<le> length (rows df)"
  shows "\<exists>corr. calc_corr_last12 rc df = Inr corr \<and>
           index corr = filter (\<lambda>k. month_of k = month_of (last (index df))) (index df) \<and>
           columns corr = columns df"
  using calc_corr_last12_monthly [OF assms] calc_corr_last12_Inr(4,5) by blast

theorem calc_corr_last12_rows_witness:
  "idx_freq hist36 = MonthEnd \<and> contiguous (index hist36) \<and> 12 \<le> length (rows hist36) \<and>
   (\<exists>corr. calc_corr_last12 example_corr hist36 = Inr corr \<and>
      index corr = [374, 386, 398] \<and> columns corr = [6, 74])"
proof -
  have h: "idx_freq hist36 = MonthEnd" "contiguous (index hist36)" "12 \<le> length (rows hist36)"
    by code_simp+
  have f: "filter (\<lambda>k. month_of k = month_of (last (index hist36))) (index hist36) = [374, 386, 398]"
    by code_simp
  have c: "columns hist36 = [6, 74]" by code_simp
  show ?thesis
    using h calc_corr_last12_rows [OF h, of example_corr] unfolding f c by blast
qed

text \<open>
  Claim C9, as the code has it: for a fitted model \<^verbatim>\<open>predict(0)\<close> is \<^verbatim>\<open>predict()\<close>, that
  is \<^verbatim>\<open>predict\<close> with the default \<open>13 - month\<close>. The table it returns is empty exactly
  when the stored history has no row from the chosen start month on.
\<close>

theorem predict_zero_is_default:
  assumes "fit rc self df = (None, self')"
  shows "predict self' (Some 0) = predict self' None \<and>
         (\<exists>p. period_fit self' = Some p \<and>
            predict self' (Some 0) = predict self' (Some (13 - month_of (p + 1))) \<and>
            (\<forall>t. predict self' (Some 0) = Inr t \<longrightarrow>
               (rows t = [] \<longleftrightarrow> loc_from df (p + 1) = Inr [])))"
proof -
  from fit_None_state [OF assms(1)] obtain p where
    st: "period_fit self' = Some p" "df_base self' = Some df" "rows df \<noteq> []"
    by blast
  let ?n = "13 - month_of (p + 1)"
  have n: "0 < ?n" using month_of_range [of "p + 1"] by simp
  have pr: "predict self' (Some 0) = map_sum id (reindexed df ?n) (loc_from df (p + 1))"
    by (simp add: predict_fitted(2) [OF st])
  have a: "predict self' (Some 0) = predict self' None"
    unfolding pr by (simp add: predict_fitted(1) [OF st])
  have b: "predict self' (Some 0) = predict self' (Some ?n)"
    unfolding pr by (simp add: predict_fitted(2) [OF st])
  have c: "\<forall>t. predict self' (Some 0) = Inr t \<longrightarrow>
      (rows t = [] \<longleftrightarrow> loc_from df (p + 1) = Inr [])"
  proof (intro allI impI)
    fix t assume "predict self' (Some 0) = Inr t"
    with pr obtain from_ini where t: "t = reindexed df ?n from_ini"
      and l: "loc_from df (p + 1) = Inr from_ini"
      by (cases "loc_from df (p + 1)") auto
    have "rows t = [] \<longleftrightarrow> iloc_upto ?n from_ini = []"
      unfolding t by (metis reindexed_simps(3) length_0_conv)
    then show "rows t = [] \<longleftrightarrow> loc_from df (p + 1) = Inr []"
      using n l by (simp add: iloc_upto_Nil)
  qed
  from a b c st(1) show ?thesis by blast
qed

theorem predict_zero_is_default_witness:
  "fit example_corr (init 6 None) hist36 = (None, fitted36) \<and>
   predict fitted36 (Some 0) = predict fitted36 None \<and>
   (\<exists>t. predict fitted36 (Some 0) = Inr t \<and> length (rows t) = 9)"
proof -
  have h1: "fit example_corr (init 6 None) hist36 = (None, fitted36)" by (rule fit_hist36)
  from predict_zero_is_default [OF h1]
  have z: "predict fitted36 (Some 0) = predict fitted36 None" by blast
  then have "\<exists>t. predict fitted36 (Some 0) = Inr t \<and> length (rows t) = 9"
    by (simp add: predict36_None)
  with h1 z show ?thesis by blast
qed

text \<open>
  Claim C9 as stated fails when the selected period is the last month of the history:
  fitted on one year with \<open>posicao = 0\<close>, \<^verbatim>\<open>predict(0)\<close> returns an empty table.
\<close>

theorem predict_zero_empty_counterexample:
  "fit example_corr (init 6 (Some 0)) hist12 = (None, fitted12) \<and>
   predict fitted12 (Some 0) =
     Inr \<lparr>idx_freq = MonthEnd, idx_name = None, columns = [6, 74], rows = []\<rparr>"
  by code_simp

text \<open>
  Claim C10: \<^verbatim>\<open>sort_values\<close> puts the missing correlations after all defined ones (the
  entry at position \<open>i\<close> is defined exactly when \<open>i\<close> is less than the number of defined
  entries), so a successful \<^verbatim>\<open>fit\<close> with \<open>posicao\<close> below that number selects a period
  of the column with a defined correlation.
\<close>

theorem fit_selects_defined:
  assumes "fit rc self df = (None, self')"
    and "calc_corr_last12 rc df = Inr corr"
    and "col_pos (coluna self) (columns corr) = Some j"
    and "0 \<le> posicao self"
    and "nat (posicao self) < length (filter (\<lambda>(k, v). v \<noteq> None) (series j (rows corr)))"
  shows "(\<forall>i < length (series j (rows corr)).
            snd (sort_values_desc (series j (rows corr)) ! i) \<noteq> None \<longleftrightarrow>
            i < length (filter (\<lambda>(k, v). v \<noteq> None) (series j (rows corr)))) \<and>
         (\<exists>k x. period_fit self' = Some k \<and> correlacao_fit self' = Some (Some x) \<and>
            (k, Some x) \<in> set (series j (rows corr)))"
proof
  let ?col = "series j (rows corr)"
  let ?top = "sort_values_desc ?col"
  show "\<forall>i < length ?col. snd (?top ! i) \<noteq> None \<longleftrightarrow>
          i < length (filter (\<lambda>(k, v). v \<noteq> None) ?col)"
    using sort_values_desc_defined [of _ ?col] sort_values_desc_nan [of ?col]
    by (metis linorder_not_less option.distinct(1))
  from assms(1) obtain corr' j' k v where
    c: "calc_corr_last12 rc df = Inr corr'" and
    j: "col_pos (coluna self) (columns corr') = Some j'" and
    kv: "py_index (sort_values_desc (series j' (rows corr'))) (posicao self) = Inr (k, v)" and
    s: "self' = self\<lparr>df_base := Some df, df_correlacao := Some corr', period_fit := Some k,
       correlacao_fit := Some v,
       correlacao_outros_fit := Some (map snd (filter (\<lambda>(k', r). k' = k) (rows corr'))),
       mes_final_periodo_fit := Some (strftime_Y_m k)\<rparr>"
    by (rule fit_None)
  from c j assms(2,3) have same: "corr' = corr" "j' = j" by simp_all
  from kv assms(4) have at: "?top ! nat (posicao self) = (k, v)"
    and pos: "nat (posicao self) < length ?top"
    unfolding same by (auto simp: py_index_nonneg split: if_splits)
  from sort_values_desc_defined [OF assms(5)] at obtain x where x: "v = Some x" by auto
  from pos at have "(k, v) \<in> set ?top" by (metis nth_mem)
  then have "(k, Some x) \<in> set ?col" by (simp add: sort_values_desc_set x)
  with s x show "\<exists>k x. period_fit self' = Some k \<and> correlacao_fit self' = Some (Some x) \<and>
      (k, Some x) \<in> set ?col"
    by simp
qed

theorem fit_selects_defined_witness:
  "fit example_corr (init 6 None) hist36 = (None, fitted36) \<and>
   calc_corr_last12 example_corr hist36 = Inr corr36 \<and>
   col_pos (coluna (init 6 None :: (nat, rat) model)) (columns corr36) = Some 0 \<and>
   0 \<le> posicao (init 6 None :: (nat, rat) model) \<and>
   nat (posicao (init 6 None :: (nat, rat) model))
     < length (filter (\<lambda>(k, v). v \<noteq> None) (series 0 (rows corr36))) \<and>
   (\<exists>k x. period_fit fitted36 = Some k \<and> correlacao_fit fitted36 = Some (Some x) \<and>
      (k, Some x) \<in> set (series 0 (rows corr36)))"
proof -
  have h1: "fit example_corr (init 6 None) hist36 = (None, fitted36)" by (rule fit_hist36)
  have h2: "calc_corr_last12 example_corr hist36 = Inr corr36" by (rule calc_hist36)
  have h3: "col_pos (coluna (init 6 None :: (nat, rat) model)) (columns corr36) = Some 0"
    by code_simp
  have h4: "0 \<le> posicao (init 6 None :: (nat, rat) model)" by (simp add: init_def)
  have h5: "nat (posicao (init 6 None :: (nat, rat) model))
     < length (filter (\<lambda>(k, v). v \<noteq> None) (series 0 (rows corr36)))"
    by code_simp
  from fit_selects_defined [OF h1 h2 h3 h4 h5] h1 h2 h3 h4 h5 show ?thesis by blast
qed

end
